theory Spec2Isabelle
  imports Complex_Main "HOL-Library.Multiset" "HOL-Library.AList"
begin

section \<open>Python values used by the retrieval core\<close>

text \<open>
  The retrieval core is \<^verbatim>\<open>backend/app/core/rag_pipeline.py\<close>, class \<^verbatim>\<open>RAGPipeline\<close>.
  A Python \<^verbatim>\<open>str\<close> is a sequence of Unicode code points, so a text is a list of code
  points; \<^verbatim>\<open>len\<close> is \<open>length\<close>. Python integers are unbounded: indices are \<open>int\<close>.
  Python floats are idealised as \<open>real\<close> (no rounding, no NaN).
\<close>

type_synonym pychar = nat
type_synonym pystr = "pychar list"

datatype py_error = IndexError | ZeroDivisionError | CollaboratorError

text \<open>\<^verbatim>\<open>text[i]\<close>: a negative index counts from the end; out of range raises IndexError.\<close>

definition py_getitem :: "'a list \<Rightarrow> int \<Rightarrow> 'a option" where
  "py_getitem xs i =
     (let n = int (length xs); j = (if i < 0 then i + n else i)
      in if 0 \<le> j \<and> j < n then Some (xs ! nat j) else None)"

text \<open>\<^verbatim>\<open>text[a:b]\<close>: negative bounds count from the end, then both are clipped to the text.\<close>

definition py_clip :: "int \<Rightarrow> int \<Rightarrow> nat" where
  "py_clip n a = (if a < 0 then nat (max (a + n) 0) else nat (min a n))"

definition py_slice :: "'a list \<Rightarrow> int \<Rightarrow> int \<Rightarrow> 'a list" where
  "py_slice xs a b =
     (let n = int (length xs); lo = py_clip n a; hi = py_clip n b
      in take (hi - lo) (drop lo xs))"

text \<open>\<^verbatim>\<open>xs[:n]\<close>, the slice from the beginning.\<close>

definition py_slice_to :: "'a list \<Rightarrow> int \<Rightarrow> 'a list" where
  "py_slice_to xs n = take (py_clip (int (length xs)) n) xs"

text \<open>\<^verbatim>\<open>range(hi, lo, -1)\<close>: \<open>hi, hi - 1, \<dots>, lo + 1\<close>.\<close>

definition py_range_down :: "int \<Rightarrow> int \<Rightarrow> int list" where
  "py_range_down hi lo = map (\<lambda>k. hi - int k) [0..<nat (hi - lo)]"

text \<open>
  The code points for which \<^verbatim>\<open>str.isspace\<close> holds; \<^verbatim>\<open>str.strip()\<close> and
  \<^verbatim>\<open>str.split()\<close> without arguments remove, respectively split at, exactly these.
\<close>

definition py_isspace :: "pychar \<Rightarrow> bool" where
  "py_isspace c \<longleftrightarrow>
     (9 \<le> c \<and> c \<le> 13) \<or> (28 \<le> c \<and> c \<le> 32) \<or> c = 133 \<or> c = 160 \<or> c = 5760 \<or>
     (8192 \<le> c \<and> c \<le> 8202) \<or> c = 8232 \<or> c = 8233 \<or> c = 8239 \<or> c = 8287 \<or> c = 12288"

definition py_strip :: "pystr \<Rightarrow> pystr" where
  "py_strip s = rev (dropWhile py_isspace (rev (dropWhile py_isspace s)))"

section \<open>Chunker: \<^verbatim>\<open>RAGPipeline._split_text\<close>\<close>

text \<open>\<^verbatim>\<open>self.chunk_size = 500\<close> and \<^verbatim>\<open>self.chunk_overlap = 50\<close>, set in \<^verbatim>\<open>__init__\<close>.\<close>

definition chunk_size :: int where
  "chunk_size = 500"

definition chunk_overlap :: int where
  "chunk_overlap = 50"

text \<open>\<^verbatim>\<open>['.', '!', '?', '\<dots>']\<close>: full stop, exclamation and question mark, and the
  ideographic full stop U+3002, fullwidth exclamation mark U+FF01 and fullwidth question
  mark U+FF1F.\<close>

definition sentence_endings :: "pychar list" where
  "sentence_endings = [46, 33, 63, 12290, 65281, 65311]"

text \<open>
  The first \<^verbatim>\<open>for\<close> loop of the window: the indices are tried in order; the first one that
  holds a sentence ending and is not the last character gives the cut \<open>i + 1\<close> (the
  \<^verbatim>\<open>break\<close>); \<open>Inr None\<close> is the loop running to its end, which enters the \<^verbatim>\<open>else\<close>.
\<close>

fun find_sentence_end :: "pystr \<Rightarrow> int list \<Rightarrow> py_error + int option" where
  "find_sentence_end text [] = Inr None"
| "find_sentence_end text (i # rest) =
     (case py_getitem text i of
        None \<Rightarrow> Inl IndexError
      | Some c \<Rightarrow>
          if c \<in> set sentence_endings \<and> i + 1 < int (length text) then Inr (Some (i + 1))
          else find_sentence_end text rest)"

text \<open>The second \<^verbatim>\<open>for\<close> loop: the first index holding a space or a newline is the cut.\<close>

fun find_word_boundary :: "pystr \<Rightarrow> int list \<Rightarrow> py_error + int option" where
  "find_word_boundary text [] = Inr None"
| "find_word_boundary text (i # rest) =
     (case py_getitem text i of
        None \<Rightarrow> Inl IndexError
      | Some c \<Rightarrow>
          if c = 32 \<or> c = 10 then Inr (Some i)
          else find_word_boundary text rest)"

text \<open>The value of \<^verbatim>\<open>end\<close> when the chunk is cut, for the window starting at \<open>start\<close>.\<close>

definition choose_end :: "int \<Rightarrow> pystr \<Rightarrow> int \<Rightarrow> py_error + int" where
  "choose_end csize text start =
     (let endp = start + csize in
      if endp < int (length text) then
        (case find_sentence_end text (py_range_down endp (max start (endp - 100))) of
           Inl e \<Rightarrow> Inl e
         | Inr (Some pos) \<Rightarrow> Inr pos
         | Inr None \<Rightarrow>
             (case find_word_boundary text (py_range_down endp (max start (endp - 50))) of
                Inl e \<Rightarrow> Inl e
              | Inr (Some pos) \<Rightarrow> Inr pos
              | Inr None \<Rightarrow> Inr endp))
      else Inr endp)"

text \<open>\<^verbatim>\<open>start = end - self.chunk_overlap if end < text_length else end\<close>\<close>

definition next_start :: "int \<Rightarrow> pystr \<Rightarrow> int \<Rightarrow> int" where
  "next_start overlap text endp = (if endp < int (length text) then endp - overlap else endp)"

text \<open>\<^verbatim>\<open>chunk = text[start:end].strip()\<close>, appended when it is not empty.\<close>

definition emit_chunk :: "pystr \<Rightarrow> int \<Rightarrow> int \<Rightarrow> pystr list \<Rightarrow> pystr list" where
  "emit_chunk text start endp chunks =
     (let chunk = py_strip (py_slice text start endp)
      in if chunk \<noteq> [] then chunks @ [chunk] else chunks)"

text \<open>
  The \<^verbatim>\<open>while start < text_length\<close> loop. \<open>None\<close> is a loop that never ends;
  \<open>Some (Inl e)\<close> is an exception leaving \<^verbatim>\<open>_split_text\<close>.
\<close>

partial_function (option) split_loop ::
  "int \<Rightarrow> int \<Rightarrow> pystr \<Rightarrow> int \<Rightarrow> pystr list \<Rightarrow> (py_error + pystr list) option" where
  "split_loop csize overlap text start chunks =
     (if start < int (length text) then
        (case choose_end csize text start of
           Inl e \<Rightarrow> Some (Inl e)
         | Inr endp \<Rightarrow>
             split_loop csize overlap text (next_start overlap text endp)
               (emit_chunk text start endp chunks))
      else Some (Inr chunks))"

declare split_loop.simps [code]

definition split_text :: "int \<Rightarrow> int \<Rightarrow> pystr \<Rightarrow> (py_error + pystr list) option" where
  "split_text csize overlap text =
     (if text = [] then Some (Inr []) else split_loop csize overlap text 0 [])"

section \<open>Stable descending sort\<close>

text \<open>
  \<^verbatim>\<open>list.sort(key=k, reverse=True)\<close> is stable: the result is in descending order of the
  key, and entries with equal keys keep their original order. That is the stable ascending
  sort on the negated key.
\<close>

definition py_sort_desc :: "('a \<Rightarrow> 'k::{linorder,uminus}) \<Rightarrow> 'a list \<Rightarrow> 'a list" where
  "py_sort_desc key xs = sort_key (\<lambda>x. - key x) xs"

section \<open>Stored chunks, search results and the collaborators\<close>

text \<open>Metadata is a Python dictionary from strings to values; the order of insertion is kept.\<close>

datatype mvalue = MStr pystr | MInt int | MFloat real | MBool bool

type_synonym metadata = "(pystr \<times> mvalue) list"

type_synonym embedding = "real list"

text \<open>\<^verbatim>\<open>{**a, **b}\<close>: the entries of \<open>b\<close> are stored into \<open>a\<close> in order, a key already
  present keeping its place and taking the new value.\<close>

definition dict_merge :: "('k \<times> 'v) list \<Rightarrow> ('k \<times> 'v) list \<Rightarrow> ('k \<times> 'v) list" where
  "dict_merge a b = foldl (\<lambda>d (k, v). AList.update k v d) a b"

text \<open>The keys \<^verbatim>\<open>"document_id"\<close>, \<^verbatim>\<open>"chunk_index"\<close> and \<^verbatim>\<open>"chunk_text"\<close> as code points.\<close>

definition key_document_id :: pystr where
  "key_document_id = [100, 111, 99, 117, 109, 101, 110, 116, 95, 105, 100]"

definition key_chunk_index :: pystr where
  "key_chunk_index = [99, 104, 117, 110, 107, 95, 105, 110, 100, 101, 120]"

definition key_chunk_text :: pystr where
  "key_chunk_text = [99, 104, 117, 110, 107, 95, 116, 101, 120, 116]"

text \<open>The \<^verbatim>\<open>where\<close> argument of the collection's \<^verbatim>\<open>get\<close> and \<^verbatim>\<open>query\<close>:
  \<^verbatim>\<open>None\<close>, \<^verbatim>\<open>{"document_id": d}\<close> or \<^verbatim>\<open>{"document_id": {"$in": ds}}\<close>.\<close>

datatype where_clause = NoFilter | DocumentIdIs pystr | DocumentIdIn "pystr list"

text \<open>What \<^verbatim>\<open>collection.get\<close> returns: parallel lists under \<^verbatim>\<open>'ids'\<close>, \<^verbatim>\<open>'documents'\<close>
  and \<^verbatim>\<open>'metadatas'\<close>.\<close>

record get_response =
  g_ids :: "pystr list"
  g_documents :: "pystr list"
  g_metadatas :: "metadata list"

text \<open>What \<^verbatim>\<open>collection.query\<close> returns: for each query embedding, parallel lists under
  \<^verbatim>\<open>'ids'\<close>, \<^verbatim>\<open>'documents'\<close>, \<^verbatim>\<open>'metadatas'\<close> and \<^verbatim>\<open>'distances'\<close>.\<close>

record query_response =
  q_ids :: "pystr list list"
  q_documents :: "pystr list list"
  q_metadatas :: "metadata list list"
  q_distances :: "real list list"

text \<open>The arguments of one \<^verbatim>\<open>collection.add\<close> call.\<close>

record add_request =
  a_documents :: "pystr list"
  a_metadatas :: "metadata list"
  a_ids :: "pystr list"
  a_embeddings :: "embedding list"

text \<open>
  The vector index (the collection of the vector database) and the embedding model are
  external libraries. Each of their calls either returns or raises; a raise is
  \<open>Inl CollaboratorError\<close>. The state of the index is of an arbitrary type \<open>'s\<close>. A call
  that changes the index returns the state it leaves behind, and \<open>True\<close> when it completed
  without raising.
\<close>

record 's vector_index =
  vi_add :: "'s \<Rightarrow> add_request \<Rightarrow> 's \<times> bool"
  vi_get :: "'s \<Rightarrow> where_clause \<Rightarrow> py_error + get_response"
  vi_delete :: "'s \<Rightarrow> pystr list \<Rightarrow> 's \<times> bool"
  vi_query :: "'s \<Rightarrow> embedding list \<Rightarrow> int \<Rightarrow> where_clause \<Rightarrow> py_error + query_response"

type_synonym encoder = "pystr list \<Rightarrow> py_error + embedding list"

text \<open>The dictionaries built by the searches. A result of the semantic search has a
  \<^verbatim>\<open>'distance'\<close>, a result of the keyword search a \<^verbatim>\<open>'score'\<close>.\<close>

record search_result =
  rid :: pystr
  document :: pystr
  metadata :: metadata
  confidence :: real

record semantic_result = search_result +
  distance :: real

record keyword_result = search_result +
  score :: nat

text \<open>An entry of the fused result map: \<^verbatim>\<open>{**result, 'semantic_confidence': \<dots>,
  'keyword_confidence': \<dots>, 'combined_confidence': \<dots>}\<close>; it has the \<^verbatim>\<open>'distance'\<close> or the
  \<^verbatim>\<open>'score'\<close> of the result it was copied from.\<close>

record fused_result = search_result +
  f_distance :: "real option"
  f_score :: "nat option"
  semantic_confidence :: real
  keyword_confidence :: real
  combined_confidence :: real

section \<open>Semantic search: \<^verbatim>\<open>RAGPipeline.query\<close>\<close>

text \<open>\<^verbatim>\<open>where_clause = None; if document_ids: where_clause = {"document_id": {"$in": document_ids}}\<close>\<close>

definition where_of :: "pystr list option \<Rightarrow> where_clause" where
  "where_of document_ids =
     (case document_ids of
        None \<Rightarrow> NoFilter
      | Some ds \<Rightarrow> if ds = [] then NoFilter else DocumentIdIn ds)"

text \<open>
  The body of \<^verbatim>\<open>for i in range(len(results['ids'][0]))\<close>: the four reads in the order of
  the source (each may raise IndexError), the confidence, the filter, the append.
\<close>

fun process_results ::
  "real \<Rightarrow> query_response \<Rightarrow> nat list \<Rightarrow> semantic_result list \<Rightarrow> py_error + semantic_result list"
  where
  "process_results min_confidence results [] processed = Inr processed"
| "process_results min_confidence results (i # rest) processed =
     (case Option.bind (py_getitem (q_ids results) 0) (\<lambda>l. py_getitem l (int i)) of
        None \<Rightarrow> Inl IndexError
      | Some doc_id \<Rightarrow>
     (case Option.bind (py_getitem (q_documents results) 0) (\<lambda>l. py_getitem l (int i)) of
        None \<Rightarrow> Inl IndexError
      | Some doc \<Rightarrow>
     (case Option.bind (py_getitem (q_metadatas results) 0) (\<lambda>l. py_getitem l (int i)) of
        None \<Rightarrow> Inl IndexError
      | Some meta \<Rightarrow>
     (case Option.bind (py_getitem (q_distances results) 0) (\<lambda>l. py_getitem l (int i)) of
        None \<Rightarrow> Inl IndexError
      | Some dst \<Rightarrow>
          (let conf = 1 - dst in
           process_results min_confidence results rest
             (if conf \<ge> min_confidence
              then processed @ [\<lparr>rid = doc_id, document = doc, metadata = meta,
                                  confidence = conf, distance = dst\<rparr>]
              else processed))))))"

text \<open>The \<^verbatim>\<open>try\<close> block of \<^verbatim>\<open>query\<close>, up to the sorted list of results.\<close>

definition query_body ::
  "encoder \<Rightarrow> 's vector_index \<Rightarrow> 's \<Rightarrow> pystr \<Rightarrow> int \<Rightarrow> pystr list option \<Rightarrow> real
     \<Rightarrow> py_error + semantic_result list" where
  "query_body encode vi st query_text n_results document_ids min_confidence =
     (case encode [query_text] of
        Inl e \<Rightarrow> Inl e
      | Inr query_embedding \<Rightarrow>
     (case vi_query vi st query_embedding n_results (where_of document_ids) of
        Inl e \<Rightarrow> Inl e
      | Inr results \<Rightarrow>
     (case py_getitem (q_ids results) 0 of
        None \<Rightarrow> Inl IndexError
      | Some ids0 \<Rightarrow>
     (case process_results min_confidence results [0..<length ids0] [] of
        Inl e \<Rightarrow> Inl e
      | Inr processed_results \<Rightarrow> Inr (py_sort_desc confidence processed_results)))))"

text \<open>The dictionary \<^verbatim>\<open>query\<close> returns; \<open>qr_error\<close> is the \<^verbatim>\<open>"error"\<close> entry of the
  \<^verbatim>\<open>except\<close> branch.\<close>

record query_result =
  qr_query :: pystr
  qr_results :: "semantic_result list"
  qr_total_found :: nat
  qr_searched_documents :: "nat option"
  qr_error :: "py_error option"

definition query ::
  "encoder \<Rightarrow> 's vector_index \<Rightarrow> 's \<Rightarrow> pystr \<Rightarrow> int \<Rightarrow> pystr list option \<Rightarrow> real
     \<Rightarrow> query_result" where
  "query encode vi st query_text n_results document_ids min_confidence =
     (case query_body encode vi st query_text n_results document_ids min_confidence of
        Inr processed_results \<Rightarrow>
          \<lparr>qr_query = query_text, qr_results = processed_results,
           qr_total_found = length processed_results,
           qr_searched_documents =
             (case document_ids of None \<Rightarrow> None
              | Some ds \<Rightarrow> if ds = [] then None else Some (length ds)),
           qr_error = None\<rparr>
      | Inl e \<Rightarrow>
          \<lparr>qr_query = query_text, qr_results = [], qr_total_found = 0,
           qr_searched_documents = None, qr_error = Some e\<rparr>)"

text \<open>The default \<^verbatim>\<open>min_confidence: float = 0.5\<close>.\<close>

definition default_min_confidence :: real where
  "default_min_confidence = 0.5"

section \<open>Keyword search: \<^verbatim>\<open>RAGPipeline._keyword_search\<close>\<close>

text \<open>\<^verbatim>\<open>str.split()\<close> without arguments: the maximal runs of characters that are not
  whitespace, in order. \<open>cur\<close> is the run being read.\<close>

fun py_split_from :: "pystr \<Rightarrow> pystr \<Rightarrow> pystr list" where
  "py_split_from cur [] = (if cur = [] then [] else [cur])"
| "py_split_from cur (c # cs) =
     (if py_isspace c then (if cur = [] then py_split_from [] cs else cur # py_split_from [] cs)
      else py_split_from (cur @ [c]) cs)"

definition py_split :: "pystr \<Rightarrow> pystr list" where
  "py_split s = py_split_from [] s"

text \<open>\<^verbatim>\<open>term in doc\<close>: \<open>term\<close> occurs in \<open>doc\<close> as a substring.\<close>

fun py_contains :: "pystr \<Rightarrow> pystr \<Rightarrow> bool" where
  "py_contains t [] = (t = [])"
| "py_contains t (c # cs) = (take (length t) (c # cs) = t \<or> py_contains t cs)"

text \<open>\<^verbatim>\<open>doc.count(term)\<close>: the number of occurrences of \<open>term\<close> in \<open>doc\<close> that do not
  overlap, counted from the left; for the empty \<open>term\<close> it is \<open>len(doc) + 1\<close>.\<close>

function py_count :: "pystr \<Rightarrow> pystr \<Rightarrow> nat" where
  "py_count t d =
     (if t = [] then length d + 1
      else if length d < length t then 0
      else if take (length t) d = t then 1 + py_count t (drop (length t) d)
      else py_count t (tl d))"
  by pat_completeness auto
termination
proof (relation "measure (\<lambda>(t, d). length d)")
  fix t d :: pystr
  assume "t \<noteq> []" "\<not> length d < length t"
  then obtain k where "length t = Suc k" "Suc k \<le> length d"
    by (cases t) auto
  then show "((t, drop (length t) d), (t, d)) \<in> measure (\<lambda>(t, d). length d)"
    and "((t, tl d), (t, d)) \<in> measure (\<lambda>(t, d). length d)" by simp_all
qed simp

declare py_count.simps [simp del]

text \<open>\<^verbatim>\<open>a / b\<close> on numbers: division by zero raises.\<close>

definition py_truediv :: "real \<Rightarrow> real \<Rightarrow> py_error + real" where
  "py_truediv a b = (if b = 0 then Inl ZeroDivisionError else Inr (a / b))"

text \<open>
  The inner loop \<^verbatim>\<open>for term in query_terms: if term in doc_lower: score += doc_lower.count(term)\<close>,
  from the score so far.
\<close>

fun count_terms :: "pystr \<Rightarrow> pystr list \<Rightarrow> nat \<Rightarrow> nat" where
  "count_terms doc_lower [] sc = sc"
| "count_terms doc_lower (t # terms) sc =
     count_terms doc_lower terms
       (if py_contains t doc_lower then sc + py_count t doc_lower else sc)"

text \<open>
  The loop \<^verbatim>\<open>for i, doc in enumerate(all_docs['documents'])\<close>. \<^verbatim>\<open>str.lower\<close> follows the
  Unicode case tables, which are not part of the repository: it is the parameter \<open>lower\<close>.
  The entries of the dictionary are evaluated in the order of the source: the id, the
  metadata, then the division.
\<close>

fun keyword_loop ::
  "(pystr \<Rightarrow> pystr) \<Rightarrow> pystr list \<Rightarrow> get_response \<Rightarrow> (nat \<times> pystr) list
     \<Rightarrow> keyword_result list \<Rightarrow> py_error + keyword_result list" where
  "keyword_loop lower query_terms all_docs [] results = Inr results"
| "keyword_loop lower query_terms all_docs ((i, doc) # rest) results =
     (let doc_lower = lower doc; sc = count_terms doc_lower query_terms 0 in
      if sc > 0 then
        (case py_getitem (g_ids all_docs) (int i) of
           None \<Rightarrow> Inl IndexError
         | Some doc_id \<Rightarrow>
        (case py_getitem (g_metadatas all_docs) (int i) of
           None \<Rightarrow> Inl IndexError
         | Some meta \<Rightarrow>
        (case py_truediv (real sc) (real (length query_terms)) of
           Inl e \<Rightarrow> Inl e
         | Inr q \<Rightarrow>
             keyword_loop lower query_terms all_docs rest
               (results @ [\<lparr>rid = doc_id, document = doc, metadata = meta,
                            confidence = min q 1, score = sc\<rparr>]))))
      else keyword_loop lower query_terms all_docs rest results)"

text \<open>The \<^verbatim>\<open>try\<close> block of \<^verbatim>\<open>_keyword_search\<close>.\<close>

definition keyword_search_body ::
  "(pystr \<Rightarrow> pystr) \<Rightarrow> 's vector_index \<Rightarrow> 's \<Rightarrow> pystr \<Rightarrow> int \<Rightarrow> pystr list option
     \<Rightarrow> py_error + keyword_result list" where
  "keyword_search_body lower vi st query_text n_results document_ids =
     (case vi_get vi st (where_of document_ids) of
        Inl e \<Rightarrow> Inl e
      | Inr all_docs \<Rightarrow>
          (let query_terms = py_split (lower query_text) in
           case keyword_loop lower query_terms all_docs
                  (enumerate 0 (g_documents all_docs)) [] of
             Inl e \<Rightarrow> Inl e
           | Inr results \<Rightarrow>
               Inr (py_slice_to (py_sort_desc (\<lambda>x. int (score x)) results) n_results)))"

text \<open>\<^verbatim>\<open>except Exception: return []\<close>\<close>

definition keyword_search ::
  "(pystr \<Rightarrow> pystr) \<Rightarrow> 's vector_index \<Rightarrow> 's \<Rightarrow> pystr \<Rightarrow> int \<Rightarrow> pystr list option
     \<Rightarrow> keyword_result list" where
  "keyword_search lower vi st query_text n_results document_ids =
     (case keyword_search_body lower vi st query_text n_results document_ids of
        Inl e \<Rightarrow> []
      | Inr results \<Rightarrow> results)"

section \<open>Floating-point arithmetic\<close>

text \<open>
  The weights, the confidences and the combined scores of the fusion are Python floats,
  that is IEEE 754 binary64 numbers, and the fusion adds, multiplies and divides them with
  rounding. A float is represented by the real number it denotes (an infinity by a real
  number beyond the finite range, see \<open>infinity\<close> below; there is no NaN), so that
  the comparison of floats is the order of the reals. The three operations are not part of
  the repository: they are the parameter \<open>ops\<close> of the fusion.
\<close>

record float_ops =
  f_add :: "real \<Rightarrow> real \<Rightarrow> real"
  f_mul :: "real \<Rightarrow> real \<Rightarrow> real"
  f_div :: "real \<Rightarrow> real \<Rightarrow> real"

text \<open>\<^verbatim>\<open>a / b\<close> on floats: division by zero raises.\<close>

definition float_truediv :: "float_ops \<Rightarrow> real \<Rightarrow> real \<Rightarrow> py_error + real" where
  "float_truediv ops a b = (if b = 0 then Inl ZeroDivisionError else Inr (f_div ops a b))"

section \<open>Fusion: \<^verbatim>\<open>RAGPipeline._combine_search_results\<close> and \<^verbatim>\<open>hybrid_search\<close>\<close>

text \<open>The first loop: \<^verbatim>\<open>result_map[doc_id] = {**result, \<dots>}\<close> for a semantic result.\<close>

definition add_semantic ::
  "float_ops \<Rightarrow> real \<Rightarrow> (pystr \<times> fused_result) list \<Rightarrow> semantic_result
     \<Rightarrow> (pystr \<times> fused_result) list" where
  "add_semantic ops semantic_weight result_map result =
     AList.update (rid result)
       \<lparr>rid = rid result, document = document result, metadata = metadata result,
        confidence = confidence result,
        f_distance = Some (distance result), f_score = None,
        semantic_confidence = confidence result,
        keyword_confidence = 0,
        combined_confidence = f_mul ops (confidence result) semantic_weight\<rparr>
       result_map"

text \<open>The second loop: an entry already in the map is updated in place, another is added.\<close>

definition add_keyword ::
  "float_ops \<Rightarrow> real \<Rightarrow> real \<Rightarrow> (pystr \<times> fused_result) list \<Rightarrow> keyword_result
     \<Rightarrow> (pystr \<times> fused_result) list" where
  "add_keyword ops keyword_weight semantic_weight result_map result =
     (case map_of result_map (rid result) of
        Some existing \<Rightarrow>
          AList.update (rid result)
            (existing\<lparr>keyword_confidence := confidence result,
                      combined_confidence :=
                        f_add ops (f_mul ops (semantic_confidence existing) semantic_weight)
                          (f_mul ops (confidence result) keyword_weight)\<rparr>)
            result_map
      | None \<Rightarrow>
          AList.update (rid result)
            \<lparr>rid = rid result, document = document result, metadata = metadata result,
             confidence = confidence result,
             f_distance = None, f_score = Some (score result),
             semantic_confidence = 0,
             keyword_confidence = confidence result,
             combined_confidence = f_mul ops (confidence result) keyword_weight\<rparr>
            result_map)"

text \<open>The result map after both loops, for weights that are already normalised.\<close>

definition fuse ::
  "float_ops \<Rightarrow> semantic_result list \<Rightarrow> keyword_result list \<Rightarrow> real \<Rightarrow> real
     \<Rightarrow> (pystr \<times> fused_result) list"
  where
  "fuse ops semantic_results keyword_results keyword_weight semantic_weight =
     foldl (add_keyword ops keyword_weight semantic_weight)
       (foldl (add_semantic ops semantic_weight) [] semantic_results) keyword_results"

text \<open>\<^verbatim>\<open>_combine_search_results\<close>: the two divisions raise ZeroDivisionError when the sum of
  the weights is zero.\<close>

definition combine_search_results ::
  "float_ops \<Rightarrow> semantic_result list \<Rightarrow> keyword_result list \<Rightarrow> real \<Rightarrow> real
     \<Rightarrow> py_error + fused_result list"
  where
  "combine_search_results ops semantic_results keyword_results keyword_weight semantic_weight =
     (let total_weight = f_add ops keyword_weight semantic_weight in
      case float_truediv ops keyword_weight total_weight of
        Inl e \<Rightarrow> Inl e
      | Inr keyword_weight' \<Rightarrow>
     (case float_truediv ops semantic_weight total_weight of
        Inl e \<Rightarrow> Inl e
      | Inr semantic_weight' \<Rightarrow>
          Inr (py_sort_desc combined_confidence
                 (map snd (fuse ops semantic_results keyword_results
                             keyword_weight' semantic_weight')))))"

text \<open>The dictionary \<^verbatim>\<open>hybrid_search\<close> returns.\<close>

record hybrid_result =
  hr_query :: pystr
  hr_results :: "fused_result list"
  hr_total_found :: nat
  hr_semantic_count :: "nat option"
  hr_keyword_count :: "nat option"
  hr_error :: "py_error option"

definition hybrid_search ::
  "encoder \<Rightarrow> (pystr \<Rightarrow> pystr) \<Rightarrow> float_ops \<Rightarrow> 's vector_index \<Rightarrow> 's \<Rightarrow> pystr \<Rightarrow> int
     \<Rightarrow> pystr list option \<Rightarrow> real \<Rightarrow> real \<Rightarrow> hybrid_result" where
  "hybrid_search encode lower ops vi st query_text n_results document_ids
       keyword_weight semantic_weight =
     (let semantic_results =
            query encode vi st query_text (n_results * 2) document_ids default_min_confidence;
          keyword_results =
            keyword_search lower vi st query_text (n_results * 2) document_ids
      in case combine_search_results ops (qr_results semantic_results) keyword_results
                keyword_weight semantic_weight of
           Inl e \<Rightarrow>
             \<lparr>hr_query = query_text, hr_results = [], hr_total_found = 0,
              hr_semantic_count = None, hr_keyword_count = None, hr_error = Some e\<rparr>
         | Inr combined_results \<Rightarrow>
             (let final_results = py_slice_to combined_results n_results in
              \<lparr>hr_query = query_text, hr_results = final_results,
               hr_total_found = length final_results,
               hr_semantic_count = Some (length (qr_results semantic_results)),
               hr_keyword_count = Some (length keyword_results),
               hr_error = None\<rparr>))"

section \<open>Indexer: \<^verbatim>\<open>RAGPipeline.index_document\<close> and \<^verbatim>\<open>remove_document\<close>\<close>

text \<open>\<^verbatim>\<open>str(i)\<close> for a natural number: its decimal digits.\<close>

fun py_str_nat :: "nat \<Rightarrow> pystr" where
  "py_str_nat n = (if n < 10 then [48 + n] else py_str_nat (n div 10) @ [48 + n mod 10])"

declare py_str_nat.simps [simp del]

text \<open>\<^verbatim>\<open>f"{document_id}_chunk_{i}"\<close>\<close>

definition chunk_id :: "pystr \<Rightarrow> nat \<Rightarrow> pystr" where
  "chunk_id document_id i = document_id @ [95, 99, 104, 117, 110, 107, 95] @ py_str_nat i"

text \<open>The metadata of chunk \<open>i\<close>; the caller's metadata is merged last and so may replace
  the three entries. \<^verbatim>\<open>"..."\<close> is three full stops.\<close>

definition chunk_metadata :: "pystr \<Rightarrow> nat \<Rightarrow> pystr \<Rightarrow> metadata option \<Rightarrow> metadata" where
  "chunk_metadata document_id i chunk md =
     dict_merge
       [(key_document_id, MStr document_id),
        (key_chunk_index, MInt (int i)),
        (key_chunk_text,
           MStr (if length chunk > 100 then py_slice_to chunk 100 @ [46, 46, 46] else chunk))]
       (case md of None \<Rightarrow> [] | Some m \<Rightarrow> m)"

text \<open>The lists built by \<^verbatim>\<open>for i, chunk in enumerate(chunks)\<close> and passed to
  \<^verbatim>\<open>collection.add\<close>.\<close>

definition add_request_of ::
  "pystr \<Rightarrow> pystr list \<Rightarrow> metadata option \<Rightarrow> embedding list \<Rightarrow> add_request" where
  "add_request_of document_id chunks md embeddings =
     \<lparr>a_documents = map snd (enumerate 0 chunks),
      a_metadatas = map (\<lambda>(i, chunk). chunk_metadata document_id i chunk md) (enumerate 0 chunks),
      a_ids = map (\<lambda>(i, chunk). chunk_id document_id i) (enumerate 0 chunks),
      a_embeddings = embeddings\<rparr>"

text \<open>
  \<^verbatim>\<open>index_document\<close> returns a boolean and leaves the index in a new state. Any exception
  inside the \<^verbatim>\<open>try\<close> gives \<open>False\<close>. The result is \<open>None\<close> only if the chunker does
  not return.
\<close>

definition index_document ::
  "encoder \<Rightarrow> 's vector_index \<Rightarrow> 's \<Rightarrow> pystr \<Rightarrow> pystr \<Rightarrow> metadata option \<Rightarrow> (bool \<times> 's) option"
  where
  "index_document encode vi st document_id text md =
     (case split_text chunk_size chunk_overlap text of
        None \<Rightarrow> None
      | Some (Inl e) \<Rightarrow> Some (False, st)
      | Some (Inr chunks) \<Rightarrow>
          if chunks = [] then Some (False, st)
          else
            (case encode chunks of
               Inl e \<Rightarrow> Some (False, st)
             | Inr embeddings \<Rightarrow>
                 (case vi_add vi st (add_request_of document_id chunks md embeddings) of
                    (st', completed) \<Rightarrow> Some (completed, st'))))"

text \<open>\<^verbatim>\<open>remove_document\<close>: the ids of the document's chunks are read, and deleted in one
  call when there are any.\<close>

definition remove_document :: "'s vector_index \<Rightarrow> 's \<Rightarrow> pystr \<Rightarrow> bool \<times> 's" where
  "remove_document vi st document_id =
     (case vi_get vi st (DocumentIdIs document_id) of
        Inl e \<Rightarrow> (False, st)
      | Inr results \<Rightarrow>
          if g_ids results \<noteq> [] then
            (case vi_delete vi st (g_ids results) of (st', completed) \<Rightarrow> (completed, st'))
          else (False, st))"

section \<open>A list-backed vector index\<close>

text \<open>
  Modelled from the spec: the vector database is an external library, and the spec gives
  its contract: \<^verbatim>\<open>add(ids, vectors, metadata)\<close>, \<^verbatim>\<open>get(filter)\<close> returning the entries
  whose metadata matches, \<^verbatim>\<open>delete(ids)\<close>, and \<^verbatim>\<open>query\<close> returning the nearest entries by
  ascending distance. This index keeps the entries in a list and never raises; its
  embeddings are vectors of length 1.
\<close>

record stored_chunk =
  s_id :: pystr
  s_document :: pystr
  s_metadata :: metadata
  s_embedding :: embedding

definition matches :: "where_clause \<Rightarrow> metadata \<Rightarrow> bool" where
  "matches w m =
     (case w of
        NoFilter \<Rightarrow> True
      | DocumentIdIs d \<Rightarrow> map_of m key_document_id = Some (MStr d)
      | DocumentIdIn ds \<Rightarrow>
          (case map_of m key_document_id of Some (MStr d) \<Rightarrow> d \<in> set ds | _ \<Rightarrow> False))"

definition list_add :: "stored_chunk list \<Rightarrow> add_request \<Rightarrow> stored_chunk list \<times> bool" where
  "list_add st req =
     (st @ map (\<lambda>(i, (d, (m, e))). \<lparr>s_id = i, s_document = d, s_metadata = m, s_embedding = e\<rparr>)
            (zip (a_ids req) (zip (a_documents req) (zip (a_metadatas req) (a_embeddings req)))),
      True)"

definition list_get :: "stored_chunk list \<Rightarrow> where_clause \<Rightarrow> py_error + get_response" where
  "list_get st w =
     (let found = filter (\<lambda>c. matches w (s_metadata c)) st
      in Inr \<lparr>g_ids = map s_id found, g_documents = map s_document found,
               g_metadatas = map s_metadata found\<rparr>)"

definition list_delete :: "stored_chunk list \<Rightarrow> pystr list \<Rightarrow> stored_chunk list \<times> bool" where
  "list_delete st ids = (filter (\<lambda>c. s_id c \<notin> set ids) st, True)"

text \<open>The cosine distance of two vectors of length 1.\<close>

definition unit_cosine_distance :: "embedding \<Rightarrow> embedding \<Rightarrow> real" where
  "unit_cosine_distance a b = 1 - sum_list (map2 (*) a b)"

definition list_query ::
  "stored_chunk list \<Rightarrow> embedding list \<Rightarrow> int \<Rightarrow> where_clause \<Rightarrow> py_error + query_response"
  where
  "list_query st query_embeddings n_results w =
     (let nearest = (\<lambda>q. py_slice_to
                        (sort_key (\<lambda>c. unit_cosine_distance q (s_embedding c))
                           (filter (\<lambda>c. matches w (s_metadata c)) st)) n_results)
      in Inr \<lparr>q_ids = map (\<lambda>q. map s_id (nearest q)) query_embeddings,
               q_documents = map (\<lambda>q. map s_document (nearest q)) query_embeddings,
               q_metadatas = map (\<lambda>q. map s_metadata (nearest q)) query_embeddings,
               q_distances =
                 map (\<lambda>q. map (\<lambda>c. unit_cosine_distance q (s_embedding c)) (nearest q))
                   query_embeddings\<rparr>)"

definition list_index :: "stored_chunk list vector_index" where
  "list_index =
     \<lparr>vi_add = list_add, vi_get = list_get, vi_delete = list_delete, vi_query = list_query\<rparr>"

text \<open>Lower-casing of the letters A to Z, and an encoder that maps every text to the same
  vector: values for the parameters \<open>lower\<close> and \<open>encode\<close> in the examples.\<close>

definition ascii_lower :: "pystr \<Rightarrow> pystr" where
  "ascii_lower s = map (\<lambda>c. if 65 \<le> c \<and> c \<le> 90 then c + 32 else c) s"

definition unit_encoder :: encoder where
  "unit_encoder texts = Inr (map (\<lambda>t. [1, 0]) texts)"

text \<open>An index holding one chunk of document \<^verbatim>\<open>d\<close> and one chunk of document \<^verbatim>\<open>e\<close>.\<close>

definition two_documents :: "stored_chunk list" where
  "two_documents =
     [\<lparr>s_id = [97], s_document = [65], s_metadata = [(key_document_id, MStr [100])],
       s_embedding = [1, 0]\<rparr>,
      \<lparr>s_id = [98], s_document = [66], s_metadata = [(key_document_id, MStr [101])],
       s_embedding = [0, 1]\<rparr>]"

text \<open>The keyword search as the specification words it. The score of a chunk: the sum, over
  the query terms, of the number of occurrences of the term in the lower-cased chunk text.\<close>

definition term_count_score :: "(pystr \<Rightarrow> pystr) \<Rightarrow> pystr list \<Rightarrow> pystr \<Rightarrow> nat" where
  "term_count_score lower query_terms doc =
     sum_list (map (\<lambda>t. py_count t (lower doc)) query_terms)"

text \<open>The result for a chunk: its confidence is \<open>min (score / number of query terms) 1\<close>.\<close>

definition keyword_entry ::
  "(pystr \<Rightarrow> pystr) \<Rightarrow> pystr list \<Rightarrow> pystr \<times> pystr \<times> metadata \<Rightarrow> keyword_result" where
  "keyword_entry lower query_terms chunk =
     (case chunk of (i, doc, m) \<Rightarrow>
        \<lparr>rid = i, document = doc, metadata = m,
         confidence =
           min (real (term_count_score lower query_terms doc) / real (length query_terms)) 1,
         score = term_count_score lower query_terms doc\<rparr>)"

text \<open>The chunks of score 0 are left out, the others are sorted by score, descending, and
  the first \<open>n\<close> are returned.\<close>

definition keyword_search_spec ::
  "(pystr \<Rightarrow> pystr) \<Rightarrow> pystr list \<Rightarrow> (pystr \<times> pystr \<times> metadata) list \<Rightarrow> nat
     \<Rightarrow> keyword_result list" where
  "keyword_search_spec lower query_terms chunks n =
     take n
       (py_sort_desc (\<lambda>x. int (score x))
          (map (keyword_entry lower query_terms)
             (filter (\<lambda>(i, doc, m). term_count_score lower query_terms doc \<noteq> 0) chunks)))"

text \<open>An index of three chunks with the texts \<^verbatim>\<open>ab ab\<close>, \<^verbatim>\<open>xy\<close> and \<^verbatim>\<open>Ab\<close>.\<close>

definition three_chunks :: "stored_chunk list" where
  "three_chunks =
     [\<lparr>s_id = [97], s_document = [97, 98, 32, 97, 98],
       s_metadata = [(key_document_id, MStr [100])], s_embedding = [1, 0]\<rparr>,
      \<lparr>s_id = [98], s_document = [120, 121],
       s_metadata = [(key_document_id, MStr [100])], s_embedding = [0, 1]\<rparr>,
      \<lparr>s_id = [99], s_document = [65, 98],
       s_metadata = [(key_document_id, MStr [101])], s_embedding = [0, 1]\<rparr>]"

text \<open>The semantic search as the specification words it. The result for a retrieved
  neighbour: its confidence is 1 minus its distance.\<close>

definition semantic_of :: "pystr \<times> pystr \<times> metadata \<times> real \<Rightarrow> semantic_result" where
  "semantic_of neighbour =
     (case neighbour of (i, doc, m, dst) \<Rightarrow>
        \<lparr>rid = i, document = doc, metadata = m, confidence = 1 - dst, distance = dst\<rparr>)"

text \<open>The neighbours retrieved for the query embedding, in the order of retrieval.\<close>

definition first_neighbours :: "query_response \<Rightarrow> (pystr \<times> pystr \<times> metadata \<times> real) list" where
  "first_neighbours results =
     zip (hd (q_ids results))
       (zip (hd (q_documents results))
          (zip (hd (q_metadatas results)) (hd (q_distances results))))"

text \<open>A response holds a list for the query embedding under each key, and the four lists
  have the same length.\<close>

definition well_formed :: "query_response \<Rightarrow> bool" where
  "well_formed results \<longleftrightarrow>
     q_ids results \<noteq> [] \<and> q_documents results \<noteq> [] \<and>
     q_metadatas results \<noteq> [] \<and> q_distances results \<noteq> [] \<and>
     length (hd (q_documents results)) = length (hd (q_ids results)) \<and>
     length (hd (q_metadatas results)) = length (hd (q_ids results)) \<and>
     length (hd (q_distances results)) = length (hd (q_ids results))"

text \<open>What the list-backed index of three chunks answers to the query vector \<open>[1, 0]\<close>.\<close>

definition three_neighbours :: query_response where
  "three_neighbours =
     \<lparr>q_ids = [[[97], [98], [99]]],
      q_documents = [[[97, 98, 32, 97, 98], [120, 121], [65, 98]]],
      q_metadatas = [[[(key_document_id, MStr [100])], [(key_document_id, MStr [100])],
                      [(key_document_id, MStr [101])]]],
      q_distances = [[0, 1, 1]]\<rparr>"

text \<open>The fusion as the specification words it. The result with a given chunk id in a result
  list; when an id occurs more than once, the last occurrence is the one the result map keeps.\<close>

definition last_with :: "pystr \<Rightarrow> 'a search_result_scheme list \<Rightarrow> 'a search_result_scheme option"
  where
  "last_with i results = find (\<lambda>r. rid r = i) (rev results)"



section \<open>IEEE 754 binary64 arithmetic\<close>



















section \<open>The chunker terminates\<close>

lemma py_getitem_nonneg:
  "0 \<le> i \<Longrightarrow> i < int (length xs) \<Longrightarrow> py_getitem xs i = Some (xs ! nat i)"
  by (simp add: py_getitem_def Let_def)

lemma set_py_range_down: "set (py_range_down hi lo) = {i. lo < i \<and> i \<le> hi}"
proof -
  have "\<And>i. lo < i \<Longrightarrow> i \<le> hi \<Longrightarrow> i \<in> (\<lambda>k. hi - int k) ` {0..<nat (hi - lo)}"
  proof -
    fix i assume "lo < i" "i \<le> hi"
    then have "i = hi - int (nat (hi - i))" "nat (hi - i) \<in> {0..<nat (hi - lo)}" by auto
    then show "i \<in> (\<lambda>k. hi - int k) ` {0..<nat (hi - lo)}" by blast
  qed
  then show ?thesis by (auto simp: py_range_down_def)
qed

lemma find_sentence_end_cases:
  "\<forall>i\<in>set idxs. 0 \<le> i \<and> i < int (length text) \<Longrightarrow>
   find_sentence_end text idxs = Inr None \<or>
   (\<exists>i\<in>set idxs. find_sentence_end text idxs = Inr (Some (i + 1)) \<and> i + 1 < int (length text))"
  by (induction idxs) (auto simp: py_getitem_nonneg)

lemma find_word_boundary_cases:
  "\<forall>i\<in>set idxs. 0 \<le> i \<and> i < int (length text) \<Longrightarrow>
   find_word_boundary text idxs = Inr None \<or>
   (\<exists>i\<in>set idxs. find_word_boundary text idxs = Inr (Some i))"
  by (induction idxs) (auto simp: py_getitem_nonneg)

lemma choose_end_bounds:
  assumes "0 \<le> start" "0 < csize"
  shows "\<exists>e. choose_end csize text start = Inr e \<and> start < e \<and> start + csize - 100 < e \<and>
             e \<le> start + csize + 1 \<and>
             (if start + csize < int (length text) then e < int (length text) else e = start + csize)"
proof (cases "start + csize < int (length text)")
  case False
  then show ?thesis using assms by (simp add: choose_end_def Let_def)
next
  case True
  let ?e0 = "start + csize"
  let ?S = "py_range_down ?e0 (max start (?e0 - 100))"
  let ?W = "py_range_down ?e0 (max start (?e0 - 50))"
  have inS: "\<forall>i\<in>set ?S. 0 \<le> i \<and> i < int (length text)"
    using True assms by (auto simp: set_py_range_down)
  have inW: "\<forall>i\<in>set ?W. 0 \<le> i \<and> i < int (length text)"
    using True assms by (auto simp: set_py_range_down)
  from find_sentence_end_cases [OF inS] show ?thesis
  proof
    assume "\<exists>i\<in>set ?S. find_sentence_end text ?S = Inr (Some (i + 1)) \<and> i + 1 < int (length text)"
    then obtain i where i: "i \<in> set ?S" "find_sentence_end text ?S = Inr (Some (i + 1))"
      "i + 1 < int (length text)" by blast
    from i(1) have "max start (?e0 - 100) < i" "i \<le> ?e0" by (auto simp: set_py_range_down)
    then show ?thesis using True i(2,3) by (simp add: choose_end_def Let_def)
  next
    assume none: "find_sentence_end text ?S = Inr None"
    from find_word_boundary_cases [OF inW] show ?thesis
    proof
      assume "find_word_boundary text ?W = Inr None"
      then show ?thesis using True none assms by (simp add: choose_end_def Let_def)
    next
      assume "\<exists>i\<in>set ?W. find_word_boundary text ?W = Inr (Some i)"
      then obtain i where i: "i \<in> set ?W" "find_word_boundary text ?W = Inr (Some i)" by blast
      from i(1) have "max start (?e0 - 50) < i" "i \<le> ?e0" by (auto simp: set_py_range_down)
      then show ?thesis using True none i(2) by (simp add: choose_end_def Let_def)
    qed
  qed
qed

lemma next_start_advances:
  assumes "0 \<le> start" "0 < csize" "0 \<le> overlap" "overlap + 100 \<le> csize"
    and "choose_end csize text start = Inr e"
  shows "start < next_start overlap text e"
  using choose_end_bounds [OF assms(1,2), of "text"] assms(3,4,5)
  by (auto simp: next_start_def)

lemma split_loop_total:
  assumes "0 < csize" "0 \<le> overlap" "overlap + 100 \<le> csize"
  shows "0 \<le> start \<Longrightarrow> \<exists>r. split_loop csize overlap text start chunks = Some (Inr r)"
proof (induction "nat (int (length text) - start)" arbitrary: start chunks rule: less_induct)
  case less
  show ?case
  proof (cases "start < int (length text)")
    case False
    then show ?thesis by (subst split_loop.simps) simp
  next
    case True
    from choose_end_bounds [OF less.prems assms(1), of "text"]
    obtain e where e: "choose_end csize text start = Inr e" by blast
    have adv: "start < next_start overlap text e"
      by (rule next_start_advances [OF less.prems assms e])
    then have "nat (int (length text) - next_start overlap text e) < nat (int (length text) - start)"
      using True by simp
    moreover have "0 \<le> next_start overlap text e" using adv less.prems by simp
    ultimately obtain r where
      "split_loop csize overlap text (next_start overlap text e) (emit_chunk text start e chunks)
         = Some (Inr r)"
      using less.hyps by blast
    then show ?thesis using True e by (subst split_loop.simps) simp
  qed
qed

section \<open>The chunker on text without boundaries\<close>

lemma find_sentence_end_none:
  "\<forall>i\<in>set idxs. 0 \<le> i \<and> i < int (length text) \<Longrightarrow>
   \<forall>c\<in>set text. c \<notin> set sentence_endings \<Longrightarrow>
   find_sentence_end text idxs = Inr None"
  by (induction idxs) (auto simp: py_getitem_nonneg)

lemma find_word_boundary_none:
  "\<forall>i\<in>set idxs. 0 \<le> i \<and> i < int (length text) \<Longrightarrow>
   \<forall>c\<in>set text. c \<noteq> 32 \<and> c \<noteq> 10 \<Longrightarrow>
   find_word_boundary text idxs = Inr None"
  by (induction idxs) (auto simp: py_getitem_nonneg)

lemma choose_end_hard_cut:
  assumes "0 \<le> start" "0 < csize"
    and "\<forall>c\<in>set text. c \<notin> set sentence_endings" "\<forall>c\<in>set text. c \<noteq> 32 \<and> c \<noteq> 10"
  shows "choose_end csize text start = Inr (start + csize)"
proof (cases "start + csize < int (length text)")
  case False
  then show ?thesis by (simp add: choose_end_def Let_def)
next
  case True
  have "find_sentence_end text (py_range_down (start + csize) (max start (start + csize - 100))) = Inr None"
    using True assms(1,2) by (intro find_sentence_end_none assms(3)) (auto simp: set_py_range_down)
  moreover have "find_word_boundary text (py_range_down (start + csize) (max start (start + csize - 50))) = Inr None"
    using True assms(1,2) by (intro find_word_boundary_none assms(4)) (auto simp: set_py_range_down)
  ultimately show ?thesis by (simp add: choose_end_def Let_def)
qed

lemma dropWhile_none: "\<forall>c\<in>set xs. \<not> P c \<Longrightarrow> dropWhile P xs = xs"
  by (cases xs) auto

lemma py_strip_no_space:
  assumes "\<forall>c\<in>set s. \<not> py_isspace c"
  shows "py_strip s = s"
  using assms by (simp add: py_strip_def dropWhile_none)

lemma py_isspace_space: "py_isspace 32" "py_isspace 10"
  by (simp_all add: py_isspace_def)

lemma py_slice_nonneg:
  "0 \<le> a \<Longrightarrow> 0 \<le> b \<Longrightarrow>
   py_slice xs a b = take (min (nat b) (length xs) - min (nat a) (length xs)) (drop (min (nat a) (length xs)) xs)"
  by (auto simp: py_slice_def py_clip_def Let_def min_def)

lemma emit_chunk_no_space:
  assumes "\<forall>c\<in>set text. \<not> py_isspace c" "0 \<le> start" "start < e" "start < int (length text)"
  shows "emit_chunk text start e chunks = chunks @ [py_slice text start e]"
proof -
  have "set (py_slice text start e) \<subseteq> set text"
    by (auto simp: py_slice_def Let_def dest: in_set_takeD in_set_dropD)
  then have "py_strip (py_slice text start e) = py_slice text start e"
    using assms(1) by (intro py_strip_no_space) blast
  moreover have "py_slice text start e \<noteq> []"
    using assms(2-4) by (auto simp: py_slice_nonneg)
  ultimately show ?thesis by (simp add: emit_chunk_def Let_def)
qed

lemma split_text_1000:
  assumes len: "length text = 1000"
    and nosent: "\<forall>c\<in>set text. c \<notin> set sentence_endings"
    and nospace: "\<forall>c\<in>set text. \<not> py_isspace c"
  shows "split_text chunk_size chunk_overlap text =
           Some (Inr [take 500 text, take 500 (drop 450 text), drop 900 text])"
proof -
  have noword: "\<forall>c\<in>set text. c \<noteq> 32 \<and> c \<noteq> 10"
    using nospace py_isspace_space by blast
  have ce: "\<And>start. 0 \<le> start \<Longrightarrow> choose_end 500 text start = Inr (start + 500)"
    by (rule choose_end_hard_cut [OF _ _ nosent noword]) simp_all
  have em: "\<And>start e chunks. 0 \<le> start \<Longrightarrow> start < e \<Longrightarrow> start < 1000 \<Longrightarrow>
      emit_chunk text start e chunks = chunks @ [py_slice text start e]"
    by (rule emit_chunk_no_space [OF nospace]) (simp_all add: len)
  have s3: "split_loop 500 50 text 1400 cs = Some (Inr cs)" for cs
    by (subst split_loop.simps) (simp add: len)
  have s2: "split_loop 500 50 text 900 cs = Some (Inr (cs @ [py_slice text 900 1400]))" for cs
    by (subst split_loop.simps) (simp add: len ce em next_start_def s3)
  have s1: "split_loop 500 50 text 450 cs = Some (Inr (cs @ [py_slice text 450 950, py_slice text 900 1400]))" for cs
    by (subst split_loop.simps) (simp add: len ce em next_start_def s2)
  have s0: "split_loop 500 50 text 0 [] = Some (Inr [py_slice text 0 500, py_slice text 450 950, py_slice text 900 1400])"
    by (subst split_loop.simps) (simp add: len ce em next_start_def s1)
  have "text \<noteq> []" using len by auto
  then show ?thesis
    using s0 len by (simp add: split_text_def chunk_size_def chunk_overlap_def py_slice_nonneg)
qed

section \<open>Claims about the chunker\<close>

text \<open>
  C9. With the configured \<open>chunk_size = 500\<close> and \<open>chunk_overlap = 50\<close> the chunker returns
  a list of chunks for every text: it neither loops forever nor raises. In every iteration
  (a window start \<open>start\<close> inside the text) the cut \<open>e\<close> is chosen without an error and lies
  less than 100 characters before the raw window end \<open>start + chunk_size\<close>; 100 is less than
  \<open>chunk_size - chunk_overlap\<close>; the next window start is strictly greater than \<open>start\<close>; and
  when the cut reaches the end of the text the next start is the cut itself, without the
  step back by the overlap.
\<close>

theorem split_text_terminates:
  "(\<exists>chunks. split_text chunk_size chunk_overlap text = Some (Inr chunks)) \<and>
   (\<forall>start. 0 \<le> start \<and> start < int (length text) \<longrightarrow>
      (\<exists>e. choose_end chunk_size text start = Inr e \<and>
           start + chunk_size - 100 < e \<and>
           100 < chunk_size - chunk_overlap \<and>
           start < next_start chunk_overlap text e \<and>
           (int (length text) \<le> e \<longrightarrow> next_start chunk_overlap text e = e)))"
proof (intro conjI allI impI)
  show "\<exists>chunks. split_text chunk_size chunk_overlap text = Some (Inr chunks)"
    using split_loop_total [of chunk_size chunk_overlap 0 "text" "[]"]
    by (simp add: split_text_def chunk_size_def chunk_overlap_def)
next
  fix start
  assume a: "0 \<le> start \<and> start < int (length text)"
  have cs: "0 < chunk_size" by (simp add: chunk_size_def)
  from a have s0: "0 \<le> start" by simp
  from choose_end_bounds [OF s0 cs, of "text"]
  obtain e where e: "choose_end chunk_size text start = Inr e"
    "start + chunk_size - 100 < e" by blast
  have "start < next_start chunk_overlap text e"
    by (rule next_start_advances [OF s0 cs _ _ e(1)]) (simp_all add: chunk_size_def chunk_overlap_def)
  moreover have "100 < chunk_size - chunk_overlap"
    by (simp add: chunk_size_def chunk_overlap_def)
  moreover have "int (length text) \<le> e \<longrightarrow> next_start chunk_overlap text e = e"
    by (simp add: next_start_def)
  ultimately show "\<exists>e. choose_end chunk_size text start = Inr e \<and>
           start + chunk_size - 100 < e \<and>
           100 < chunk_size - chunk_overlap \<and>
           start < next_start chunk_overlap text e \<and>
           (int (length text) \<le> e \<longrightarrow> next_start chunk_overlap text e = e)"
    using e by blast
qed

lemma choose_end_short: "choose_end chunk_size [72, 105, 46] 0 = Inr 500"
  by (simp add: choose_end_def chunk_size_def)

theorem split_text_terminates_witness:
  "(\<exists>chunks. split_text chunk_size chunk_overlap [72, 105, 46] = Some (Inr chunks)) \<and>
   (0::int) \<le> 0 \<and> (0::int) < int (length [72, 105, 46 :: nat]) \<and>
   choose_end chunk_size [72, 105, 46] 0 = Inr 500 \<and>
   0 < next_start chunk_overlap [72, 105, 46] 500 \<and>
   next_start chunk_overlap [72, 105, 46] 500 = 500"
proof -
  have h: "(0::int) \<le> 0 \<and> (0::int) < int (length [72, 105, 46 :: nat])" by simp
  from split_text_terminates [of "[72, 105, 46]"]
  have t: "\<exists>chunks. split_text chunk_size chunk_overlap [72, 105, 46] = Some (Inr chunks)"
    and s: "\<exists>e. choose_end chunk_size [72, 105, 46] 0 = Inr e \<and>
           0 + chunk_size - 100 < e \<and>
           100 < chunk_size - chunk_overlap \<and>
           0 < next_start chunk_overlap [72, 105, 46] e \<and>
           (int (length [72, 105, 46 :: nat]) \<le> e \<longrightarrow> next_start chunk_overlap [72, 105, 46] e = e)"
    using h by blast+
  from s show ?thesis using t h by (auto simp: choose_end_short)
qed

text \<open>
  C2, as amended. A text of exactly 1000 characters without sentence endings and without
  whitespace is split, with \<open>chunk_size = 500\<close> and \<open>chunk_overlap = 50\<close>, into exactly three
  chunks: the characters \<open>[0, 500)\<close>, \<open>[450, 950)\<close> and \<open>[900, 1000)\<close>. The second chunk starts
  at index 450; the third is the window that starts at \<open>950 - 50\<close>.
\<close>

theorem split_text_1000_chunks:
  assumes "length text = 1000"
    and "\<forall>c\<in>set text. c \<notin> set sentence_endings"
    and "\<forall>c\<in>set text. \<not> py_isspace c"
  shows "split_text chunk_size chunk_overlap text =
           Some (Inr [take 500 text, take 500 (drop 450 text), drop 900 text])"
  using assms by (rule split_text_1000)

lemma plain_text_ok:
  "length (replicate 1000 (97::nat)) = 1000"
  "\<forall>c\<in>set (replicate 1000 (97::nat)). c \<notin> set sentence_endings"
  "\<forall>c\<in>set (replicate 1000 (97::nat)). \<not> py_isspace c"
  by (simp_all add: sentence_endings_def py_isspace_def)

theorem split_text_1000_chunks_witness:
  "length (replicate 1000 (97::nat)) = 1000 \<and>
   list_all (\<lambda>c. c \<notin> set sentence_endings \<and> \<not> py_isspace c) (replicate 1000 97) \<and>
   split_text chunk_size chunk_overlap (replicate 1000 97) =
     Some (Inr [take 500 (replicate 1000 97), take 500 (drop 450 (replicate 1000 97)),
                drop 900 (replicate 1000 97)])"
  using split_text_1000_chunks [OF plain_text_ok] plain_text_ok
  by (simp add: list_all_iff)

text \<open>
  C2 as stated fails: the text of 1000 letters \<open>a\<close> gives three chunks, of 500, 500 and
  100 characters, not two.
\<close>

theorem split_text_1000_counterexample:
  "split_text chunk_size chunk_overlap (replicate 1000 97) =
     Some (Inr [replicate 500 97, replicate 500 97, replicate 100 97])"
  using split_text_1000 [OF plain_text_ok] by simp

section \<open>Claims about the indexer\<close>

lemma split_text_configured_total:
  "\<exists>chunks. split_text chunk_size chunk_overlap text = Some (Inr chunks)"
  using split_loop_total [of chunk_size chunk_overlap 0 "text" "[]"]
  by (simp add: split_text_def chunk_size_def chunk_overlap_def)

lemma split_text_empty: "split_text csize overlap [] = Some (Inr [])"
  by (simp add: split_text_def)

lemma index_document_cases:
  assumes "split_text chunk_size chunk_overlap text = Some (Inr chunks)"
  shows "\<exists>ok st'. index_document encode vi st did text md = Some (ok, st') \<and>
        (ok \<longleftrightarrow> chunks \<noteq> [] \<and>
           (\<exists>emb. encode chunks = Inr emb \<and>
                  snd (vi_add vi st (add_request_of did chunks md emb)))) \<and>
        (chunks = [] \<longrightarrow> \<not> ok \<and> st' = st) \<and>
        (\<forall>emb. chunks \<noteq> [] \<and> encode chunks = Inr emb \<longrightarrow>
           st' = fst (vi_add vi st (add_request_of did chunks md emb)))"
proof (cases "chunks = []")
  case True
  then show ?thesis using assms by (auto simp: index_document_def)
next
  case False
  show ?thesis
  proof (cases "encode chunks")
    case (Inl e)
    then show ?thesis using assms False by (auto simp: index_document_def)
  next
    case (Inr emb)
    obtain st' ok where a: "vi_add vi st (add_request_of did chunks md emb) = (st', ok)"
      by (cases "vi_add vi st (add_request_of did chunks md emb)") auto
    then show ?thesis using assms False Inr by (auto simp: index_document_def)
  qed
qed

text \<open>
  C5. For every text the chunker returns some list \<open>chunks\<close>, and \<^verbatim>\<open>index_document\<close> returns a
  boolean \<open>ok\<close> and leaves an index state \<open>st'\<close> (no exception reaches the caller). \<open>ok\<close> is
  true if and only if \<open>chunks\<close> is not empty, the embedding call returned, and the bulk add
  completed without raising. With zero chunks the result is false and the index state is
  the one before the call, whatever the index would do on an add. After a bulk add the
  state is the one the add left. The empty text yields zero chunks and so the result false
  with the state unchanged.
\<close>

theorem index_document_success:
  "(\<exists>chunks. split_text chunk_size chunk_overlap text = Some (Inr chunks) \<and>
     (\<exists>ok st'. index_document encode vi st did text md = Some (ok, st') \<and>
        (ok \<longleftrightarrow> chunks \<noteq> [] \<and>
           (\<exists>emb. encode chunks = Inr emb \<and>
                  snd (vi_add vi st (add_request_of did chunks md emb)))) \<and>
        (chunks = [] \<longrightarrow> \<not> ok \<and> st' = st) \<and>
        (\<forall>emb. chunks \<noteq> [] \<and> encode chunks = Inr emb \<longrightarrow>
           st' = fst (vi_add vi st (add_request_of did chunks md emb))))) \<and>
   split_text chunk_size chunk_overlap [] = Some (Inr []) \<and>
   index_document encode vi st did [] md = Some (False, st)"
proof (intro conjI)
  from split_text_configured_total [of "text"]
  obtain chunks where c: "split_text chunk_size chunk_overlap text = Some (Inr chunks)" by blast
  show "\<exists>chunks. split_text chunk_size chunk_overlap text = Some (Inr chunks) \<and>
     (\<exists>ok st'. index_document encode vi st did text md = Some (ok, st') \<and>
        (ok \<longleftrightarrow> chunks \<noteq> [] \<and>
           (\<exists>emb. encode chunks = Inr emb \<and>
                  snd (vi_add vi st (add_request_of did chunks md emb)))) \<and>
        (chunks = [] \<longrightarrow> \<not> ok \<and> st' = st) \<and>
        (\<forall>emb. chunks \<noteq> [] \<and> encode chunks = Inr emb \<longrightarrow>
           st' = fst (vi_add vi st (add_request_of did chunks md emb))))"
    by (rule exI [of _ chunks], rule conjI, rule c, rule index_document_cases [OF c])
next
  show "split_text chunk_size chunk_overlap [] = Some (Inr [])" by (rule split_text_empty)
next
  show "index_document encode vi st did [] md = Some (False, st)"
    by (simp add: index_document_def split_text_empty)
qed

lemma split_text_blank: "split_text chunk_size chunk_overlap [32, 32] = Some (Inr [])"
proof -
  have c: "choose_end 500 [32, 32] 0 = Inr 500"
    by (simp add: choose_end_def)
  have e: "emit_chunk [32, 32] 0 500 [] = []"
    by (simp add: emit_chunk_def py_slice_def py_clip_def py_strip_def py_isspace_def)
  have "split_loop 500 50 [32, 32] 500 [] = Some (Inr [])"
    by (subst split_loop.simps) simp
  then have "split_loop 500 50 [32, 32] 0 [] = Some (Inr [])"
    by (subst split_loop.simps) (simp add: c e next_start_def)
  then show ?thesis by (simp add: split_text_def chunk_size_def chunk_overlap_def)
qed

lemma split_text_hi:
  "split_text chunk_size chunk_overlap [72, 105, 46] = Some (Inr [[72, 105, 46]])"
proof -
  have c: "choose_end 500 [72, 105, 46] 0 = Inr 500"
    by (simp add: choose_end_def)
  have e: "emit_chunk [72, 105, 46] 0 500 [] = [[72, 105, 46]]"
    by (simp add: emit_chunk_def py_slice_def py_clip_def py_strip_def py_isspace_def)
  have "split_loop 500 50 [72, 105, 46] 500 cs = Some (Inr cs)" for cs
    by (subst split_loop.simps) simp
  then have "split_loop 500 50 [72, 105, 46] 0 [] = Some (Inr [[72, 105, 46]])"
    by (subst split_loop.simps) (simp add: c e next_start_def)
  then show ?thesis by (simp add: split_text_def chunk_size_def chunk_overlap_def)
qed


text \<open>
  C5 on the list-backed index: a text of two spaces gives no chunk and the result false; the
  text ``Hi.'' is added as one chunk and the result is true.
\<close>

theorem index_document_success_witness:
  "index_document unit_encoder list_index [] [100] [32, 32] None = Some (False, []) \<and>
   index_document unit_encoder list_index [] [100] [72, 105, 46] None =
     Some (True, fst (list_add [] (add_request_of [100] [[72, 105, 46]] None [[1, 0]])))"
proof
  from index_document_success [of "[32, 32]" unit_encoder list_index "[]" "[100]" None]
  obtain chunks ok st' where
    "split_text chunk_size chunk_overlap [32, 32] = Some (Inr chunks)"
    "index_document unit_encoder list_index [] [100] [32, 32] None = Some (ok, st')"
    "chunks = [] \<longrightarrow> \<not> ok \<and> st' = []"
    by blast
  then show "index_document unit_encoder list_index [] [100] [32, 32] None = Some (False, [])"
    by (simp add: split_text_blank)
next
  from index_document_success [of "[72, 105, 46]" unit_encoder list_index "[]" "[100]" None]
  obtain chunks ok st' where a:
    "split_text chunk_size chunk_overlap [72, 105, 46] = Some (Inr chunks)"
    "index_document unit_encoder list_index [] [100] [72, 105, 46] None = Some (ok, st')"
    "ok \<longleftrightarrow> chunks \<noteq> [] \<and>
       (\<exists>emb. unit_encoder chunks = Inr emb \<and>
          snd (vi_add list_index [] (add_request_of [100] chunks None emb)))"
    "\<forall>emb. chunks \<noteq> [] \<and> unit_encoder chunks = Inr emb \<longrightarrow>
       st' = fst (vi_add list_index [] (add_request_of [100] chunks None emb))"
    by blast
  from a(1) have c: "chunks = [[72, 105, 46]]" by (simp add: split_text_hi)
  have e: "unit_encoder [[72, 105, 46]] = Inr [[1, 0]]" by (simp add: unit_encoder_def)
  have "ok" using a(3) c e by (simp add: list_index_def list_add_def)
  moreover have "st' = fst (list_add [] (add_request_of [100] [[72, 105, 46]] None [[1, 0]]))"
    using a(4) c e by (simp add: list_index_def)
  ultimately show "index_document unit_encoder list_index [] [100] [72, 105, 46] None =
     Some (True, fst (list_add [] (add_request_of [100] [[72, 105, 46]] None [[1, 0]])))"
    using a(2) by simp
qed

section \<open>Claims about removal\<close>

lemma remove_document_none:
  "vi_get vi st (DocumentIdIs d) = Inr results \<Longrightarrow> g_ids results = [] \<Longrightarrow>
   remove_document vi st d = (False, st)"
  by (simp add: remove_document_def)

lemma list_get_after_delete:
  "filter (\<lambda>c. matches w (s_metadata c))
     (filter (\<lambda>c. s_id c \<notin> set (map s_id (filter (\<lambda>c. matches w (s_metadata c)) st))) st) = []"
  by (auto simp: filter_empty_conv)

lemma remove_document_list_none:
  "filter (\<lambda>c. matches (DocumentIdIs d) (s_metadata c)) st = [] \<Longrightarrow>
   remove_document list_index st d = (False, st)"
  by (simp add: remove_document_def list_index_def list_get_def Let_def)

lemma remove_document_list_twice:
  "remove_document list_index (snd (remove_document list_index s d)) d =
     (False, snd (remove_document list_index s d))"
proof (cases "filter (\<lambda>c. matches (DocumentIdIs d) (s_metadata c)) s = []")
  case True
  then have "remove_document list_index s d = (False, s)"
    by (simp add: remove_document_def list_index_def list_get_def Let_def)
  then show ?thesis by simp
next
  case False
  let ?s' = "filter (\<lambda>c. s_id c \<notin> set (map s_id (filter (\<lambda>c. matches (DocumentIdIs d) (s_metadata c)) s))) s"
  from False have "remove_document list_index s d = (True, ?s')"
    by (simp add: remove_document_def list_index_def list_get_def list_delete_def Let_def)
  moreover have "remove_document list_index ?s' d = (False, ?s')"
    by (rule remove_document_list_none, rule list_get_after_delete)
  ultimately show ?thesis by simp
qed

text \<open>
  C6. For any index: when the index holds no chunk of the document (the filtered read
  returns no ids), \<^verbatim>\<open>remove_document\<close> returns false and leaves the index state unchanged.
  On the list-backed index, for every state and document: the call that follows a call
  for the same document returns false and leaves the index state unchanged.
\<close>

theorem remove_document_idempotent:
  "(\<forall>results. vi_get vi st (DocumentIdIs d) = Inr results \<and> g_ids results = [] \<longrightarrow>
      remove_document vi st d = (False, st)) \<and>
   remove_document list_index (snd (remove_document list_index s d)) d =
     (False, snd (remove_document list_index s d))"
  using remove_document_none [of vi st d] remove_document_list_twice [of s d] by blast

lemma remove_first:
  "remove_document list_index two_documents [100] = (True, [two_documents ! 1])"
  by (simp add: remove_document_def list_index_def list_get_def list_delete_def
      two_documents_def matches_def Let_def)

lemma get_after_remove:
  "vi_get list_index [two_documents ! 1] (DocumentIdIs [100]) =
     Inr \<lparr>g_ids = [], g_documents = [], g_metadatas = []\<rparr>"
  by (simp add: list_index_def list_get_def two_documents_def matches_def Let_def)

text \<open>
  C6 on an index of two documents: the first removal of document \<^verbatim>\<open>d\<close> returns true and
  leaves the other document's chunk; then the read returns no ids and the second removal
  returns false on the same state.
\<close>

theorem remove_document_idempotent_witness:
  "remove_document list_index two_documents [100] = (True, [two_documents ! 1]) \<and>
   vi_get list_index [two_documents ! 1] (DocumentIdIs [100]) =
     Inr \<lparr>g_ids = [], g_documents = [], g_metadatas = []\<rparr> \<and>
   remove_document list_index [two_documents ! 1] [100] = (False, [two_documents ! 1])"
proof -
  from remove_document_idempotent
    [where vi = list_index and st = "[two_documents ! 1]" and d = "[100]" and s = two_documents]
  have a: "\<forall>results. vi_get list_index [two_documents ! 1] (DocumentIdIs [100]) = Inr results
              \<and> g_ids results = [] \<longrightarrow>
            remove_document list_index [two_documents ! 1] [100] = (False, [two_documents ! 1])"
    and b: "remove_document list_index (snd (remove_document list_index two_documents [100])) [100] =
     (False, snd (remove_document list_index two_documents [100]))"
    by blast+
  from a get_after_remove
  have "remove_document list_index [two_documents ! 1] [100] = (False, [two_documents ! 1])"
    by simp
  then show ?thesis using remove_first get_after_remove by simp
qed

section \<open>Claims about the keyword search\<close>

lemma py_contains_Nil: "py_contains [] d"
  by (induction d) auto

lemma py_count_not_contained: "\<not> py_contains t d \<Longrightarrow> py_count t d = 0"
proof (induction t d rule: py_count.induct)
  case (1 t d)
  show ?case
  proof (cases "t = [] \<or> length d < length t")
    case True
    then show ?thesis using "1.prems" py_contains_Nil by (subst py_count.simps) auto
  next
    case False
    then obtain c cs where d: "d = c # cs" by (cases d) auto
    from "1.prems" d have nt: "take (length t) d \<noteq> t" and nc: "\<not> py_contains t (tl d)"
      by auto
    from "1.IH"(2) False nt nc have "py_count t (tl d) = 0" by simp
    then show ?thesis using False nt by (subst py_count.simps) simp
  qed
qed

lemma count_terms_sum:
  "count_terms doc_lower query_terms sc =
     sc + sum_list (map (\<lambda>t. py_count t doc_lower) query_terms)"
  by (induction query_terms arbitrary: sc) (auto simp: py_count_not_contained)

lemma count_terms_score:
  "count_terms (lower doc) query_terms 0 = term_count_score lower query_terms doc"
  by (simp add: count_terms_sum term_count_score_def)

lemma keyword_loop_no_zero_division:
  "keyword_loop lower query_terms all_docs docs results \<noteq> Inl ZeroDivisionError"
proof (induction docs arbitrary: results)
  case Nil
  show ?case by simp
next
  case (Cons p docs)
  obtain i doc where p: "p = (i, doc)" by (cases p)
  show ?case
  proof (cases "0 < count_terms (lower doc) query_terms 0")
    case False
    then show ?thesis using Cons.IH p by simp
  next
    case True
    then have "query_terms \<noteq> []" by (cases query_terms) auto
    then show ?thesis using Cons.IH p True
      by (auto simp: Let_def py_truediv_def split: option.splits)
  qed
qed

lemma keyword_loop_enum:
  "k + length ds \<le> length (g_ids all_docs) \<Longrightarrow>
   k + length ds \<le> length (g_metadatas all_docs) \<Longrightarrow>
   keyword_loop lower query_terms all_docs (enumerate k ds) acc =
     Inr (acc @ map (\<lambda>(i, doc). keyword_entry lower query_terms
                                 (g_ids all_docs ! i, doc, g_metadatas all_docs ! i))
                 (filter (\<lambda>(i, doc). term_count_score lower query_terms doc \<noteq> 0)
                    (enumerate k ds)))"
proof (induction ds arbitrary: k acc)
  case Nil
  show ?case by simp
next
  case (Cons doc ds)
  have ih: "keyword_loop lower query_terms all_docs (enumerate (Suc k) ds) acc' =
     Inr (acc' @ map (\<lambda>(i, doc). keyword_entry lower query_terms
                                 (g_ids all_docs ! i, doc, g_metadatas all_docs ! i))
                 (filter (\<lambda>(i, doc). term_count_score lower query_terms doc \<noteq> 0)
                    (enumerate (Suc k) ds)))" for acc'
    using Cons.prems by (intro Cons.IH) simp_all
  show ?case
  proof (cases "term_count_score lower query_terms doc = 0")
    case True
    then show ?thesis using ih by (simp add: count_terms_score)
  next
    case False
    then have "query_terms \<noteq> []" by (auto simp: term_count_score_def)
    moreover have "k < length (g_ids all_docs)" "k < length (g_metadatas all_docs)"
      using Cons.prems by simp_all
    ultimately show ?thesis using False ih
      by (simp add: count_terms_score Let_def py_getitem_nonneg py_truediv_def keyword_entry_def)
  qed
qed

lemma zip_as_enumerate:
  assumes "length ids = length docs" "length metas = length docs"
  shows "zip ids (zip docs metas) = map (\<lambda>(i, doc). (ids ! i, doc, metas ! i)) (enumerate 0 docs)"
  using assms by (intro nth_equalityI) (simp_all add: nth_enumerate_eq)

lemma keyword_entries_zip:
  assumes "length ids = length docs" "length metas = length docs"
  shows "map (\<lambda>(i, doc). f (ids ! i, doc, metas ! i))
           (filter (\<lambda>(i, doc). P doc) (enumerate 0 docs)) =
         map f (filter (\<lambda>(i, doc, m). P doc) (zip ids (zip docs metas)))"
proof -
  have "filter (\<lambda>(i, doc, m). P doc) (map (\<lambda>(i, doc). (ids ! i, doc, metas ! i)) (enumerate 0 docs))
      = map (\<lambda>(i, doc). (ids ! i, doc, metas ! i)) (filter (\<lambda>(i, doc). P doc) (enumerate 0 docs))"
    by (simp add: filter_map comp_def case_prod_unfold)
  then show ?thesis
    by (simp add: zip_as_enumerate [OF assms] comp_def case_prod_unfold)
qed

lemma py_slice_to_nonneg: "0 \<le> n \<Longrightarrow> py_slice_to xs n = take (nat n) xs"
  by (simp add: py_slice_to_def py_clip_def min_def)

lemma keyword_search_body_wellformed:
  assumes "vi_get vi st (where_of document_ids) = Inr all_docs"
    and "length (g_ids all_docs) = length (g_documents all_docs)"
    and "length (g_metadatas all_docs) = length (g_documents all_docs)"
    and "0 \<le> n_results"
  shows "keyword_search_body lower vi st query_text n_results document_ids =
           Inr (keyword_search_spec lower (py_split (lower query_text))
                  (zip (g_ids all_docs) (zip (g_documents all_docs) (g_metadatas all_docs)))
                  (nat n_results))"
proof -
  have "keyword_loop lower (py_split (lower query_text)) all_docs
          (enumerate 0 (g_documents all_docs)) [] =
        Inr (map (keyword_entry lower (py_split (lower query_text)))
               (filter (\<lambda>(i, doc, m). term_count_score lower (py_split (lower query_text)) doc \<noteq> 0)
                  (zip (g_ids all_docs) (zip (g_documents all_docs) (g_metadatas all_docs)))))"
    using assms(2,3)
    by (simp add: keyword_loop_enum keyword_entries_zip [OF assms(2,3)])
  then show ?thesis
    using assms(1,4)
    by (simp add: keyword_search_body_def keyword_search_spec_def Let_def py_slice_to_nonneg)
qed

lemma sorted_py_sort_desc:
  "sorted_wrt (\<lambda>a b. key b \<le> key a) (py_sort_desc (key :: 'a \<Rightarrow> 'k::{linordered_ab_group_add}) xs)"
proof -
  have "sorted (map (\<lambda>x. - key x) (sort_key (\<lambda>x. - key x) xs))" by (rule sorted_sort_key)
  then show ?thesis by (simp add: py_sort_desc_def sorted_map)
qed

lemma ex_get: "vi_get list_index three_chunks (where_of None) =
  Inr \<lparr>g_ids = [[97], [98], [99]], g_documents = [[97, 98, 32, 97, 98], [120, 121], [65, 98]],
      g_metadatas = [[(key_document_id, MStr [100])], [(key_document_id, MStr [100])], [(key_document_id, MStr [101])]]\<rparr>"
  by (simp add: list_index_def list_get_def three_chunks_def where_of_def matches_def Let_def)

lemma ex_split: "py_split (ascii_lower [65, 66, 32, 122, 122]) = [[97, 98], [122, 122]]"
  by (simp add: py_split_def ascii_lower_def py_isspace_def)

lemma ex_counts:
  "py_count [97, 98] [97, 98, 32, 97, 98] = 2"
  "py_count [122, 122] [97, 98, 32, 97, 98] = 0"
  "py_count [97, 98] [120, 121] = 0"
  "py_count [122, 122] [120, 121] = 0"
  "py_count [97, 98] [97, 98] = 1"
  "py_count [122, 122] [97, 98] = 0"
  by (simp_all add: py_count.simps)

lemma keyword_spec_entries:
  assumes "r \<in> set (keyword_search_spec lower query_terms chunks n)"
  shows "0 < score r \<and>
         confidence r = min (real (score r) / real (length query_terms)) 1"
proof -
  from assms have "r \<in> set (py_sort_desc (\<lambda>x. int (score x))
          (map (keyword_entry lower query_terms)
             (filter (\<lambda>(i, doc, m). term_count_score lower query_terms doc \<noteq> 0) chunks)))"
    unfolding keyword_search_spec_def by (rule in_set_takeD)
  then obtain i doc m where "r = keyword_entry lower query_terms (i, doc, m)"
    "term_count_score lower query_terms doc \<noteq> 0"
    by (auto simp: py_sort_desc_def)
  then show ?thesis by (simp add: keyword_entry_def)
qed

lemma keyword_spec_sorted:
  "sorted_wrt (\<lambda>a b. score b \<le> score a) (keyword_search_spec lower query_terms chunks n)"
proof -
  have "sorted_wrt (\<lambda>a b. int (score b) \<le> int (score a))
          (keyword_search_spec lower query_terms chunks n)"
    unfolding keyword_search_spec_def by (intro sorted_wrt_take sorted_py_sort_desc)
  then show ?thesis by simp
qed

text \<open>
  C7. When the read of the stored chunks returns well-formed parallel lists, the query has
  at least one term and \<open>n_results\<close> is not negative, \<^verbatim>\<open>_keyword_search\<close> returns what the
  specification describes: every chunk is scored by the sum of the occurrence counts of the
  lower-cased query terms in its lower-cased text, chunks of score 0 are left out, the rest
  is sorted by the raw score, descending, and cut to the first \<open>n_results\<close>. The returned list is
  in descending order of score, and every returned result has a positive score and the
  confidence \<open>min (score / number of query terms) 1\<close>.
\<close>

theorem keyword_search_scores:
  assumes "vi_get vi st (where_of document_ids) = Inr all_docs"
    and "length (g_ids all_docs) = length (g_documents all_docs)"
    and "length (g_metadatas all_docs) = length (g_documents all_docs)"
    and "py_split (lower query_text) \<noteq> []"
    and "0 \<le> n_results"
  shows "keyword_search lower vi st query_text n_results document_ids =
           keyword_search_spec lower (py_split (lower query_text))
             (zip (g_ids all_docs) (zip (g_documents all_docs) (g_metadatas all_docs)))
             (nat n_results) \<and>
         sorted_wrt (\<lambda>a b. score b \<le> score a)
           (keyword_search lower vi st query_text n_results document_ids) \<and>
         (\<forall>r\<in>set (keyword_search lower vi st query_text n_results document_ids).
            0 < score r \<and>
            confidence r =
              min (real (score r) / real (length (py_split (lower query_text)))) 1)"
proof -
  have eq: "keyword_search lower vi st query_text n_results document_ids =
           keyword_search_spec lower (py_split (lower query_text))
             (zip (g_ids all_docs) (zip (g_documents all_docs) (g_metadatas all_docs)))
             (nat n_results)"
    by (simp add: keyword_search_def keyword_search_body_wellformed [OF assms(1,2,3,5)])
  show ?thesis
    unfolding eq using keyword_spec_sorted keyword_spec_entries by blast
qed

lemma ex_spec:
  "keyword_search_spec ascii_lower [[97, 98], [122, 122]]
     (zip [[97], [98], [99]]
        (zip [[97, 98, 32, 97, 98], [120, 121], [65, 98]]
           [[(key_document_id, MStr [100])], [(key_document_id, MStr [100])],
            [(key_document_id, MStr [101])]])) 2 =
   [\<lparr>rid = [97], document = [97, 98, 32, 97, 98],
      metadata = [(key_document_id, MStr [100])], confidence = 1, score = 2\<rparr>,
    \<lparr>rid = [99], document = [65, 98],
      metadata = [(key_document_id, MStr [101])], confidence = 1 / 2, score = 1\<rparr>]"
  by (simp add: keyword_search_spec_def keyword_entry_def term_count_score_def ascii_lower_def
      ex_counts py_sort_desc_def)

text \<open>
  C7 on the index of three chunks, for the query \<^verbatim>\<open>AB zz\<close> and \<open>n_results = 2\<close>: the chunk
  \<^verbatim>\<open>ab ab\<close> has score 2 and confidence 1, the chunk \<^verbatim>\<open>Ab\<close> score 1 and confidence 1/2, and
  the chunk \<^verbatim>\<open>xy\<close> is left out.
\<close>

theorem keyword_search_scores_witness:
  "vi_get list_index three_chunks (where_of None) =
     Inr \<lparr>g_ids = [[97], [98], [99]],
          g_documents = [[97, 98, 32, 97, 98], [120, 121], [65, 98]],
          g_metadatas = [[(key_document_id, MStr [100])], [(key_document_id, MStr [100])],
                         [(key_document_id, MStr [101])]]\<rparr> \<and>
   py_split (ascii_lower [65, 66, 32, 122, 122]) = [[97, 98], [122, 122]] \<and>
   keyword_search ascii_lower list_index three_chunks [65, 66, 32, 122, 122] 2 None =
     [\<lparr>rid = [97], document = [97, 98, 32, 97, 98],
        metadata = [(key_document_id, MStr [100])], confidence = 1, score = 2\<rparr>,
      \<lparr>rid = [99], document = [65, 98],
        metadata = [(key_document_id, MStr [101])], confidence = 1 / 2, score = 1\<rparr>]"
proof -
  have ne: "py_split (ascii_lower [65, 66, 32, 122, 122]) \<noteq> []" by (simp add: ex_split)
  from keyword_search_scores
    [where vi = list_index and st = three_chunks and document_ids = None
       and lower = ascii_lower and query_text = "[65, 66, 32, 122, 122]" and n_results = 2,
     OF ex_get _ _ ne]
  have "keyword_search ascii_lower list_index three_chunks [65, 66, 32, 122, 122] 2 None =
     keyword_search_spec ascii_lower (py_split (ascii_lower [65, 66, 32, 122, 122]))
     (zip [[97], [98], [99]]
        (zip [[97, 98, 32, 97, 98], [120, 121], [65, 98]]
           [[(key_document_id, MStr [100])], [(key_document_id, MStr [100])],
            [(key_document_id, MStr [101])]])) (nat 2)"
    by simp
  then show ?thesis using ex_get ex_split ex_spec by simp
qed

lemma keyword_loop_no_terms: "keyword_loop lower [] all_docs docs acc = Inr acc"
  by (induction docs arbitrary: acc) auto

lemma py_split_from_blank: "list_all py_isspace s \<Longrightarrow> py_split_from [] s = []"
  by (induction s) auto

text \<open>
  C10. A query that splits into zero terms makes \<^verbatim>\<open>_keyword_search\<close> return the empty
  list, whatever the index does; a text of whitespace only splits into zero terms. The
  loop over the chunks never ends in ZeroDivisionError, for any terms and any chunks: a
  positive score needs at least one query term, and the division is reached only with a
  positive score.
\<close>

theorem keyword_search_zero_terms:
  "(py_split (lower query_text) = [] \<longrightarrow>
      keyword_search lower vi st query_text n_results document_ids = []) \<and>
   (list_all py_isspace s \<longrightarrow> py_split s = []) \<and>
   keyword_loop lower query_terms all_docs docs results \<noteq> Inl ZeroDivisionError \<and>
   (0 < count_terms doc_lower query_terms 0 \<longrightarrow> query_terms \<noteq> [])"
proof (intro conjI impI)
  assume "py_split (lower query_text) = []"
  then show "keyword_search lower vi st query_text n_results document_ids = []"
    by (simp add: keyword_search_def keyword_search_body_def Let_def keyword_loop_no_terms
        py_sort_desc_def py_slice_to_def split: sum.splits)
next
  assume "list_all py_isspace s"
  then show "py_split s = []" by (simp add: py_split_def py_split_from_blank)
next
  show "keyword_loop lower query_terms all_docs docs results \<noteq> Inl ZeroDivisionError"
    by (rule keyword_loop_no_zero_division)
next
  assume "0 < count_terms doc_lower query_terms 0"
  then show "query_terms \<noteq> []" by (cases query_terms) auto
qed

text \<open>
  C10 for the query of a space and a newline on the index of three chunks, and a positive
  score for the one term \<^verbatim>\<open>ab\<close> in the text \<^verbatim>\<open>ab\<close>.
\<close>

theorem keyword_search_zero_terms_witness:
  "list_all py_isspace (ascii_lower [32, 10]) \<and>
   py_split (ascii_lower [32, 10]) = [] \<and>
   keyword_search ascii_lower list_index three_chunks [32, 10] 5 None = [] \<and>
   0 < count_terms [97, 98] [[97, 98]] 0"
proof -
  have b: "list_all py_isspace (ascii_lower [32, 10])"
    by (simp add: ascii_lower_def py_isspace_def)
  have c: "0 < count_terms [97, 98] [[97, 98]] 0" by (simp add: ex_counts)
  from keyword_search_zero_terms
    [where lower = ascii_lower and query_text = "[32, 10]" and s = "ascii_lower [32, 10]"
       and vi = list_index and st = three_chunks and n_results = 5 and document_ids = None
       and doc_lower = "[97, 98]" and query_terms = "[[97, 98]]"] b c
  show ?thesis by simp
qed

section \<open>Claims about the semantic search\<close>

lemma py_getitem_0: "xs \<noteq> [] \<Longrightarrow> py_getitem xs 0 = Some (hd xs)"
  by (cases xs) (simp_all add: py_getitem_def)

lemma py_getitem_nat: "i < length xs \<Longrightarrow> py_getitem xs (int i) = Some (xs ! i)"
  by (simp add: py_getitem_def)

lemma process_results_range:
  assumes wf: "well_formed results" and n: "n \<le> length (hd (q_ids results))"
  shows "process_results min_confidence results [k..<n] acc =
     Inr (acc @ map (\<lambda>i. semantic_of (hd (q_ids results) ! i, hd (q_documents results) ! i,
                                       hd (q_metadatas results) ! i, hd (q_distances results) ! i))
                 (filter (\<lambda>i. min_confidence \<le> 1 - hd (q_distances results) ! i) [k..<n]))"
proof (induction "n - k" arbitrary: k acc)
  case 0
  then show ?case by simp
next
  case (Suc d)
  then have kn: "k < n" and d: "d = n - Suc k" by simp_all
  have up: "[k..<n] = k # [Suc k..<n]" using kn by (simp add: upt_conv_Cons)
  have g: "py_getitem (q_ids results) 0 = Some (hd (q_ids results))"
    "py_getitem (q_documents results) 0 = Some (hd (q_documents results))"
    "py_getitem (q_metadatas results) 0 = Some (hd (q_metadatas results))"
    "py_getitem (q_distances results) 0 = Some (hd (q_distances results))"
    using wf by (simp_all add: well_formed_def py_getitem_0)
  have h: "py_getitem (hd (q_ids results)) (int k) = Some (hd (q_ids results) ! k)"
    "py_getitem (hd (q_documents results)) (int k) = Some (hd (q_documents results) ! k)"
    "py_getitem (hd (q_metadatas results)) (int k) = Some (hd (q_metadatas results) ! k)"
    "py_getitem (hd (q_distances results)) (int k) = Some (hd (q_distances results) ! k)"
    using wf kn n by (simp_all add: well_formed_def py_getitem_nat)
  show ?case
    unfolding up
    by (simp add: g h Let_def Suc.hyps(1) [OF d] semantic_of_def)
qed

lemma neighbours_as_range:
  assumes "well_formed results"
  shows "first_neighbours results =
     map (\<lambda>i. (hd (q_ids results) ! i, hd (q_documents results) ! i,
               hd (q_metadatas results) ! i, hd (q_distances results) ! i))
       [0..<length (hd (q_ids results))]"
  using assms by (intro nth_equalityI) (simp_all add: first_neighbours_def well_formed_def)

lemma process_results_neighbours:
  assumes wf: "well_formed results"
  shows "process_results min_confidence results [0..<length (hd (q_ids results))] [] =
     Inr (filter (\<lambda>r. min_confidence \<le> confidence r)
            (map (semantic_of) (first_neighbours results)))"
proof -
  have "filter (\<lambda>r. min_confidence \<le> confidence r)
            (map (semantic_of) (first_neighbours results)) =
        map (\<lambda>i. semantic_of (hd (q_ids results) ! i, hd (q_documents results) ! i,
                                       hd (q_metadatas results) ! i, hd (q_distances results) ! i))
                 (filter (\<lambda>i. min_confidence \<le> 1 - hd (q_distances results) ! i)
                    [0..<length (hd (q_ids results))])"
    by (simp add: neighbours_as_range [OF wf] filter_map comp_def semantic_of_def)
  then show ?thesis by (simp add: process_results_range [OF wf])
qed

lemma query_body_wellformed:
  assumes "encode [query_text] = Inr query_embedding"
    and "vi_query vi st query_embedding n_results (where_of document_ids) = Inr results"
    and wf: "well_formed results"
  shows "query_body encode vi st query_text n_results document_ids min_confidence =
     Inr (py_sort_desc confidence
            (filter (\<lambda>r. min_confidence \<le> confidence r)
               (map (semantic_of) (first_neighbours results))))"
proof -
  have "py_getitem (q_ids results) 0 = Some (hd (q_ids results))"
    using wf by (simp add: well_formed_def py_getitem_0)
  then show ?thesis
    using assms(1,2) by (simp add: query_body_def process_results_neighbours [OF wf])
qed

lemma py_sort_desc_stable:
  "filter (\<lambda>y. key y = c) (py_sort_desc (key :: 'a \<Rightarrow> 'k::{linordered_ab_group_add}) xs) =
   filter (\<lambda>y. key y = c) xs"
  using sort_key_stable [of "\<lambda>x. - key x" "- c" xs] by (simp add: py_sort_desc_def)

lemma mset_py_sort_desc: "mset (py_sort_desc key xs) = mset xs"
  by (simp add: py_sort_desc_def)

lemma set_py_sort_desc: "set (py_sort_desc key xs) = set xs"
  by (simp add: py_sort_desc_def)

text \<open>
  C4. When the embedding call and the nearest-neighbour query return, and the response is
  well formed, the results of \<^verbatim>\<open>query\<close> are exactly the retrieved neighbours whose confidence
  (1 minus the distance) is at least \<open>min_confidence\<close>, each as often as it was retrieved; no
  result has a confidence below \<open>min_confidence\<close>, for any \<open>min_confidence\<close>; the results are in
  descending order of confidence; and the results of any one confidence are in their
  order of retrieval.
\<close>

theorem query_threshold_and_order:
  assumes "encode [query_text] = Inr query_embedding"
    and "vi_query vi st query_embedding n_results (where_of document_ids) = Inr results"
    and "well_formed results"
  shows "mset (qr_results (query encode vi st query_text n_results document_ids min_confidence)) =
           mset (filter (\<lambda>r. min_confidence \<le> confidence r)
                   (map semantic_of (first_neighbours results))) \<and>
         (\<forall>r\<in>set (qr_results
                    (query encode vi st query_text n_results document_ids min_confidence)).
            min_confidence \<le> confidence r) \<and>
         sorted_wrt (\<lambda>a b. confidence b \<le> confidence a)
           (qr_results (query encode vi st query_text n_results document_ids min_confidence)) \<and>
         (\<forall>c. filter (\<lambda>r. confidence r = c)
                (qr_results (query encode vi st query_text n_results document_ids min_confidence)) =
              filter (\<lambda>r. confidence r = c)
                (filter (\<lambda>r. min_confidence \<le> confidence r)
                   (map semantic_of (first_neighbours results))))"
proof -
  have eq: "qr_results (query encode vi st query_text n_results document_ids min_confidence) =
      py_sort_desc confidence
        (filter (\<lambda>r. min_confidence \<le> confidence r)
           (map semantic_of (first_neighbours results)))"
    using assms
      query_body_wellformed [where encode = encode and query_text = query_text and vi = vi
        and st = st and results = results and min_confidence = min_confidence]
    by (simp add: query_def)
  show ?thesis
    unfolding eq
    by (simp add: mset_py_sort_desc set_py_sort_desc sorted_py_sort_desc py_sort_desc_stable)
qed

lemma ex_encode: "unit_encoder [[113]] = Inr [[1, 0]]"
  by (simp add: unit_encoder_def)

lemma ex_query:
  "vi_query list_index three_chunks [[1, 0]] 5 (where_of None) = Inr three_neighbours"
  by (simp add: three_neighbours_def list_index_def list_query_def three_chunks_def where_of_def matches_def Let_def
      unit_cosine_distance_def py_slice_to_def py_clip_def)

lemma ex_well_formed: "well_formed three_neighbours"
  by (simp add: well_formed_def three_neighbours_def)

lemma ex_query_results:
  "qr_results (query unit_encoder list_index three_chunks [113] 5 None 0) =
     [\<lparr>rid = [97], document = [97, 98, 32, 97, 98],
        metadata = [(key_document_id, MStr [100])], confidence = 1, distance = 0\<rparr>,
      \<lparr>rid = [98], document = [120, 121],
        metadata = [(key_document_id, MStr [100])], confidence = 0, distance = 1\<rparr>,
      \<lparr>rid = [99], document = [65, 98],
        metadata = [(key_document_id, MStr [101])], confidence = 0, distance = 1\<rparr>]"
  using query_body_wellformed [where encode = unit_encoder and query_text = "[113]"
      and vi = list_index and st = three_chunks and n_results = 5 and document_ids = None
      and min_confidence = 0, OF ex_encode ex_query ex_well_formed]
  by (simp add: query_def first_neighbours_def three_neighbours_def semantic_of_def
      py_sort_desc_def)

text \<open>
  C4 on the list-backed index of three chunks with \<open>min_confidence = 0\<close>: the neighbours at
  distances 0, 1 and 1 are returned with the confidences 1, 0 and 0, the two results of
  confidence 0 in their order of retrieval.
\<close>

theorem query_threshold_and_order_witness:
  "unit_encoder [[113]] = Inr [[1, 0]] \<and>
   vi_query list_index three_chunks [[1, 0]] 5 (where_of None) = Inr three_neighbours \<and>
   well_formed three_neighbours \<and>
   qr_results (query unit_encoder list_index three_chunks [113] 5 None 0) =
     [\<lparr>rid = [97], document = [97, 98, 32, 97, 98],
        metadata = [(key_document_id, MStr [100])], confidence = 1, distance = 0\<rparr>,
      \<lparr>rid = [98], document = [120, 121],
        metadata = [(key_document_id, MStr [100])], confidence = 0, distance = 1\<rparr>,
      \<lparr>rid = [99], document = [65, 98],
        metadata = [(key_document_id, MStr [101])], confidence = 0, distance = 1\<rparr>] \<and>
   list_all (\<lambda>r. 0 \<le> confidence r)
     (qr_results (query unit_encoder list_index three_chunks [113] 5 None 0)) \<and>
   sorted_wrt (\<lambda>a b. confidence b \<le> confidence a)
     (qr_results (query unit_encoder list_index three_chunks [113] 5 None 0))"
proof -
  from query_threshold_and_order [where encode = unit_encoder and query_text = "[113]"
      and vi = list_index and st = three_chunks and n_results = 5 and document_ids = None
      and min_confidence = 0, OF ex_encode ex_query ex_well_formed]
  have "list_all (\<lambda>r. 0 \<le> confidence r)
     (qr_results (query unit_encoder list_index three_chunks [113] 5 None 0))"
    and "sorted_wrt (\<lambda>a b. confidence b \<le> confidence a)
     (qr_results (query unit_encoder list_index three_chunks [113] 5 None 0))"
    by (simp_all add: list_all_iff)
  then show ?thesis using ex_encode ex_query ex_well_formed ex_query_results by simp
qed

section \<open>Claims about the fusion\<close>

lemma last_with_Nil: "last_with i [] = None"
  by (simp add: last_with_def)

lemma last_with_snoc: "last_with i (xs @ [x]) = (if rid x = i then Some x else last_with i xs)"
  by (simp add: last_with_def)


lemma last_with_Some: "last_with i xs = Some x \<Longrightarrow> x \<in> set xs \<and> rid x = i"
  by (induction xs rule: rev_induct) (auto simp: last_with_Nil last_with_snoc split: if_splits)


























end
